theory Spec2Isabelle
  imports Complex_Main
begin

section \<open>The collision engine of src/main.py\<close>

text \<open>
  The engine computes with Python floats. They are embedded as the real numbers: a
  sum, a product or a quotient is exact in the model, where the program rounds it to
  the nearest double; overflow and NaN are outside the model. The one non-finite float
  the source creates itself, \<^verbatim>\<open>float('inf')\<close> for an event that never happens, is kept
  as a value of its own.

  The results are in two parts. Those up to and including the section on the time to a
  resolved event rest on which branch the code takes, on which fields an operation
  assigns, on comparisons, and on the sign of a difference or of a quotient; none of
  them combines or cancels terms. The last section collects what needs the algebra of
  the real numbers: the conservation laws, the position invariants and the bound on the
  number of collisions. Those are statements about exact arithmetic only, since a
  rounded operation can break each of them.
\<close>

subsection \<open>Data\<close>

text \<open>The attributes of \<^verbatim>\<open>PhysicsEngine\<close>, in the order \<^verbatim>\<open>__init__\<close> assigns them.\<close>

record state =
  m1 :: real
  m2 :: real
  x1 :: real
  x2 :: real
  w1 :: real
  w2 :: real
  v1 :: real
  v2 :: real
  collisions :: int
  finished :: bool

text \<open>
  The exceptions the modelled code can raise: a float division by zero, and the
  \<^verbatim>\<open>ValueError("Mass must be positive")\<close> of \<^verbatim>\<open>App.reset_simulation\<close>.
\<close>

datatype error = ZeroDivisionError | ValueError

text \<open>An event time: a finite float, or \<^verbatim>\<open>float('inf')\<close>.\<close>

datatype etime = Fin real | PosInf

text \<open>\<^verbatim>\<open>min(a, b)\<close> and \<^verbatim>\<open>a < b\<close> on event times.\<close>

fun emin :: "etime \<Rightarrow> etime \<Rightarrow> etime" where
  "emin (Fin a) (Fin b) = Fin (min a b)"
| "emin (Fin a) PosInf = Fin a"
| "emin PosInf b = b"

fun eless :: "etime \<Rightarrow> etime \<Rightarrow> bool" where
  "eless (Fin a) (Fin b) = (a < b)"
| "eless (Fin a) PosInf = True"
| "eless PosInf b = False"

subsection \<open>Construction\<close>

text \<open>\<^verbatim>\<open>PhysicsEngine.__init__(mass_large, velocity_large)\<close>.\<close>

definition PhysicsEngine :: "real \<Rightarrow> real \<Rightarrow> state" where
  "PhysicsEngine mass_large velocity_large =
     \<lparr> m1 = mass_large, m2 = 1,
       x1 = 400, x2 = 200, w1 = 150, w2 = 50,
       v1 = velocity_large, v2 = 0,
       collisions = 0, finished = False \<rparr>"

text \<open>
  The body of the \<^verbatim>\<open>try\<close> in \<^verbatim>\<open>App.reset_simulation\<close>, from the two parsed
  inputs on: a mass that is not positive raises \<^verbatim>\<open>ValueError\<close> before any engine
  is built (the handler then shows a message box and keeps the old engine).
\<close>

definition reset_simulation :: "real \<Rightarrow> real \<Rightarrow> error + state" where
  "reset_simulation mass velocity =
     (if mass \<le> 0 then Inl ValueError else Inr (PhysicsEngine mass velocity))"

subsection \<open>Collision resolution\<close>

text \<open>\<^verbatim>\<open>resolve_wall_collision\<close>: the small block's velocity changes sign.\<close>

definition resolve_wall_collision :: "state \<Rightarrow> state" where
  "resolve_wall_collision s =
     s\<lparr> v2 := v2 s * (- 1), collisions := collisions s + 1 \<rparr>"

text \<open>
  \<^verbatim>\<open>resolve_block_collision\<close>: both quotients divide by \<^verbatim>\<open>m1 + m2\<close>, and Python
  raises \<^verbatim>\<open>ZeroDivisionError\<close> at the first one when that sum is zero, before any
  attribute is assigned.
\<close>

definition resolve_block_collision :: "state \<Rightarrow> error + state" where
  "resolve_block_collision s =
     (let u1 = v1 s; u2 = v2 s; ma = m1 s; mb = m2 s in
      if ma + mb = 0 then Inl ZeroDivisionError
      else
        let va = ((ma - mb) * u1 + 2 * mb * u2) / (ma + mb);
            vb = ((mb - ma) * u2 + 2 * ma * u1) / (ma + mb)
        in Inr (s\<lparr> v1 := va, v2 := vb, collisions := collisions s + 1 \<rparr>))"

subsection \<open>Event times\<close>

text \<open>Step 1 of the loop body: the time until the small block reaches the wall.\<close>

definition t_wall :: "state \<Rightarrow> error + etime" where
  "t_wall s =
     (if v2 s < 0 then
        (if \<bar>v2 s\<bar> = 0 then Inl ZeroDivisionError else Inr (Fin (x2 s / \<bar>v2 s\<bar>)))
      else Inr PosInf)"

text \<open>Step 2 of the loop body: the time until the blocks touch.\<close>

definition t_block :: "state \<Rightarrow> error + etime" where
  "t_block s =
     (if v1 s < v2 s then
        (let distance_between = x1 s - (x2 s + w2 s);
             closing_speed = v2 s - v1 s
         in if closing_speed = 0 then Inl ZeroDivisionError
            else Inr (Fin (distance_between / closing_speed)))
      else Inr PosInf)"

text \<open>Both positions moved along their velocities for a time \<open>t\<close>.\<close>

definition move :: "state \<Rightarrow> real \<Rightarrow> state" where
  "move s t = s\<lparr> x1 := x1 s + v1 s * t, x2 := x2 s + v2 s * t \<rparr>"

subsection \<open>The loop of \<^verbatim>\<open>step\<close>\<close>

text \<open>
  One pass through the body of \<^verbatim>\<open>while time_remaining > 0\<close>: the new state and the
  new \<^verbatim>\<open>time_remaining\<close>. The test \<^verbatim>\<open>t_next <= time_remaining\<close> is false when
  \<^verbatim>\<open>t_next\<close> is infinite, since \<^verbatim>\<open>time_remaining\<close> is finite.
\<close>

definition loop_body :: "state \<Rightarrow> real \<Rightarrow> error + (state \<times> real)" where
  "loop_body s time_remaining =
     (case t_wall s of
        Inl e \<Rightarrow> Inl e
      | Inr tw \<Rightarrow>
     (case t_block s of
        Inl e \<Rightarrow> Inl e
      | Inr tb \<Rightarrow>
     (case emin tw tb of
        PosInf \<Rightarrow> Inr (move s time_remaining, 0)
      | Fin t_next \<Rightarrow>
          if t_next \<le> time_remaining then
            (let s' = move s t_next; r = time_remaining - t_next in
             if eless tw tb then Inr (resolve_wall_collision s', r)
             else (case resolve_block_collision s' of
                     Inl e \<Rightarrow> Inl e
                   | Inr s'' \<Rightarrow> Inr (s'', r)))
          else Inr (move s time_remaining, 0))))"

text \<open>
  The loop itself. It is not a structural recursion, so it is a partial function:
  \<open>None\<close> is a loop that never ends, \<open>Some (Inl e)\<close> an exception that leaves it,
  \<open>Some (Inr s)\<close> the state when the loop exits.
\<close>

partial_function (option) step_loop :: "state \<Rightarrow> real \<Rightarrow> (error + state) option" where
  "step_loop s time_remaining =
     (if time_remaining > 0 then
        (case loop_body s time_remaining of
           Inl e \<Rightarrow> Some (Inl e)
         | Inr (s', r) \<Rightarrow> step_loop s' r)
      else Some (Inr s))"

text \<open>The test after the loop, and the assignment it guards.\<close>

definition check_finished :: "state \<Rightarrow> state" where
  "check_finished s =
     (if v1 s \<ge> 0 \<and> v2 s \<ge> 0 \<and> v1 s \<ge> v2 s then s\<lparr> finished := True \<rparr> else s)"

text \<open>\<^verbatim>\<open>PhysicsEngine.step(dt)\<close>.\<close>

definition step :: "state \<Rightarrow> real \<Rightarrow> (error + state) option" where
  "step s dt =
     (case step_loop s dt of
        None \<Rightarrow> None
      | Some (Inl e) \<Rightarrow> Some (Inl e)
      | Some (Inr s') \<Rightarrow> Some (Inr (check_finished s')))"

text \<open>
  A driver calling \<^verbatim>\<open>step\<close> once per tick, as \<^verbatim>\<open>App.animate\<close> does; the list holds
  the \<^verbatim>\<open>dt\<close> of each call. An exception or a call that does not return ends the run.
\<close>

fun run :: "state \<Rightarrow> real list \<Rightarrow> (error + state) option" where
  "run s [] = Some (Inr s)"
| "run s (dt # dts) =
     (case step s dt of
        None \<Rightarrow> None
      | Some (Inl e) \<Rightarrow> Some (Inl e)
      | Some (Inr s') \<Rightarrow> run s' dts)"


subsection \<open>A bound on the collisions still to come\<close>

text \<open>
  These quantities are not computed by the program; they measure its progress when
  its arithmetic is exact, and are used in the last section only. There the
  energy \<open>m1 v1\<^sup>2 + m2 v2\<^sup>2\<close> is the same before and after every collision, so
  \<open>v1\<close> stays below \<open>vmax\<close>. A block collision that follows a bounce of the small
  block off the wall and is followed by another raises \<open>v1\<close> by at least
  \<open>2 m2 vmax / (m1 + m2)\<close>: \<open>potential\<close> counts how many such raises still fit below
  \<open>vmax\<close>, and \<open>rank\<close> turns that into a bound on the number of collisions left.
\<close>

definition energy :: "state \<Rightarrow> real" where
  "energy s = m1 s * (v1 s)\<^sup>2 + m2 s * (v2 s)\<^sup>2"

definition vmax :: "state \<Rightarrow> real" where
  "vmax s = sqrt (energy s / m1 s)"

definition potential :: "state \<Rightarrow> real" where
  "potential s = (m1 s + m2 s) * (vmax s - v1 s) / (2 * m2 s * vmax s)"

text \<open>
  States with \<open>v2 \<ge> 0\<close> and \<open>v1 \<ge> v2\<close> collide no more; from \<open>v2 \<ge> 0\<close> the next
  collision is between the blocks, from \<open>v1 \<ge> v2\<close> it is with the wall.
\<close>

definition rank :: "state \<Rightarrow> nat" where
  "rank s =
     (if v2 s \<ge> 0 \<and> v1 s \<ge> v2 s then 0
      else 2 * nat \<lfloor>potential s\<rfloor>
           + (if v2 s \<ge> 0 then 1 else if v1 s \<ge> v2 s then 2 else 3))"

section \<open>Basic facts about the operations\<close>

lemma t_wall_eq: "t_wall s = Inr (if v2 s < 0 then Fin (x2 s / \<bar>v2 s\<bar>) else PosInf)"
  by (simp add: t_wall_def)

lemma t_block_eq:
  "t_block s = Inr (if v1 s < v2 s then Fin ((x1 s - (x2 s + w2 s)) / (v2 s - v1 s)) else PosInf)"
  by (simp add: t_block_def Let_def)

lemma resolve_block_eq:
  "m1 s + m2 s \<noteq> 0 \<Longrightarrow>
   resolve_block_collision s =
     Inr (s\<lparr> v1 := ((m1 s - m2 s) * v1 s + 2 * m2 s * v2 s) / (m1 s + m2 s),
            v2 := ((m2 s - m1 s) * v2 s + 2 * m1 s * v1 s) / (m1 s + m2 s),
            collisions := collisions s + 1 \<rparr>)"
  by (simp add: resolve_block_collision_def Let_def)

lemma resolve_block_fields:
  assumes "resolve_block_collision s = Inr s'"
  shows "m1 s + m2 s \<noteq> 0"
    and "m1 s' = m1 s" and "m2 s' = m2 s"
    and "x1 s' = x1 s" and "x2 s' = x2 s" and "w1 s' = w1 s" and "w2 s' = w2 s"
    and "finished s' = finished s" and "collisions s' = collisions s + 1"
    and "v1 s' = ((m1 s - m2 s) * v1 s + 2 * m2 s * v2 s) / (m1 s + m2 s)"
    and "v2 s' = ((m2 s - m1 s) * v2 s + 2 * m1 s * v1 s) / (m1 s + m2 s)"
  using assms by (auto simp: resolve_block_collision_def Let_def split: if_splits)

section \<open>One pass through the loop body\<close>

lemma loop_body_cases:
  assumes "loop_body s r = Inr (s', r')"
  obtains
    (drift) "s' = move s r" "r' = 0"
      "v2 s < 0 \<Longrightarrow> r < x2 s / \<bar>v2 s\<bar>"
      "v1 s < v2 s \<Longrightarrow> r < (x1 s - (x2 s + w2 s)) / (v2 s - v1 s)"
  | (wall) t where "v2 s < 0" "t = x2 s / \<bar>v2 s\<bar>" "t \<le> r"
      "s' = resolve_wall_collision (move s t)" "r' = r - t"
      "v1 s < v2 s \<Longrightarrow> t < (x1 s - (x2 s + w2 s)) / (v2 s - v1 s)"
  | (block) t where "v1 s < v2 s" "t = (x1 s - (x2 s + w2 s)) / (v2 s - v1 s)" "t \<le> r"
      "resolve_block_collision (move s t) = Inr s'" "r' = r - t"
      "v2 s < 0 \<Longrightarrow> t \<le> x2 s / \<bar>v2 s\<bar>"
  using assms
  by (auto simp: loop_body_def t_wall_eq t_block_eq Let_def min_def
           split: if_splits sum.splits)

lemma loop_body_total:
  assumes "m1 s + m2 s \<noteq> 0"
  shows "\<exists>s' r'. loop_body s r = Inr (s', r')"
  using assms
  by (simp add: loop_body_def t_wall_eq t_block_eq Let_def resolve_block_collision_def move_def
           split: etime.splits)

lemma loop_body_frame:
  assumes "loop_body s r = Inr (s', r')"
  shows "m1 s' = m1 s" "m2 s' = m2 s" "w1 s' = w1 s" "w2 s' = w2 s" "finished s' = finished s"
  using assms
  by (cases rule: loop_body_cases;
      simp add: move_def resolve_wall_collision_def resolve_block_fields)+

lemma event_time_nonneg:
  assumes "0 \<le> x2 s" "x2 s + w2 s \<le> x1 s"
    and "t_wall s = Inr tw" "t_block s = Inr tb" "emin tw tb = Fin t"
  shows "0 \<le> t"
proof -
  have a: "v2 s < 0 \<Longrightarrow> 0 \<le> x2 s / \<bar>v2 s\<bar>" using assms(1) by (intro divide_nonneg_nonneg) simp_all
  have b: "v1 s < v2 s \<Longrightarrow> 0 \<le> (x1 s - (x2 s + w2 s)) / (v2 s - v1 s)"
    using assms(2) by (intro divide_nonneg_nonneg) simp_all
  show ?thesis
    using assms(3,4,5) a b unfolding t_wall_eq t_block_eq
    by (auto simp: min_def split: if_splits)
qed

lemma loop_body_remaining:
  assumes "loop_body s r = Inr (s', r')" "0 < r" "0 \<le> x2 s" "x2 s + w2 s \<le> x1 s"
  shows "0 \<le> r' \<and> r' \<le> r"
  using assms(1)
proof (cases rule: loop_body_cases)
  case drift
  then show ?thesis using assms(2) by simp
next
  case (wall t)
  have "0 \<le> t" unfolding wall(2) using assms(3) by (intro divide_nonneg_nonneg) simp_all
  then show ?thesis using wall(3,5) by simp
next
  case (block t)
  have "0 \<le> t" unfolding block(2) using assms(4) block(1) by (intro divide_nonneg_nonneg) simp_all
  then show ?thesis using block(3,5) by simp
qed

section \<open>The loop\<close>

lemma step_loop_exit: "r \<le> 0 \<Longrightarrow> step_loop s r = Some (Inr s)"
  by (subst step_loop.simps) simp

lemma step_loop_iter:
  "0 < r \<Longrightarrow> loop_body s r = Inr (s', r') \<Longrightarrow> step_loop s r = step_loop s' r'"
  by (subst step_loop.simps) simp

lemma step_loop_raise:
  "0 < r \<Longrightarrow> loop_body s r = Inl e \<Longrightarrow> step_loop s r = Some (Inl e)"
  by (subst step_loop.simps) simp

lemma step_loop_invariant_aux:
  assumes body: "\<And>s r s1 r1. I s \<Longrightarrow> 0 < r \<Longrightarrow> loop_body s r = Inr (s1, r1) \<Longrightarrow> I s1"
    and run: "step_loop a b = Some y"
  shows "I a \<Longrightarrow> y = Inr s' \<Longrightarrow> I s'"
  using run
proof (induct arbitrary: s' rule: step_loop.raw_induct)
  case (1 f a b y)
  note IH = 1(1) and eq = 1(2) and Ia = 1(3) and y = 1(4)
  show ?case
  proof (cases "0 < b")
    case False
    with eq Ia y show ?thesis by simp
  next
    case True
    show ?thesis
    proof (cases "loop_body a b")
      case (Inl e)
      with True eq y show ?thesis by simp
    next
      case (Inr p)
      obtain s1 r1 where p: "p = (s1, r1)" by (cases p)
      have b: "loop_body a b = Inr (s1, r1)" using Inr p by simp
      from True eq b have fy: "f s1 r1 = Some y" by simp
      have real: "step_loop a b = Some y" by fact
      have real1: "step_loop s1 r1 = Some y" using step_loop_iter[OF True b] real by simp
      have I1: "I s1" by (rule body[OF Ia True b])
      show ?thesis by (rule IH[OF fy I1 y real1])
    qed
  qed
qed (rule run)

lemmas step_loop_invariant = step_loop_invariant_aux[OF _ _ _ refl]

lemma step_Inr_iff:
  "step s dt = Some (Inr s') \<longleftrightarrow> (\<exists>s1. step_loop s dt = Some (Inr s1) \<and> s' = check_finished s1)"
  by (auto simp: step_def split: option.splits sum.splits)

lemma check_finished_fields:
  "m1 (check_finished s) = m1 s" "m2 (check_finished s) = m2 s"
  "x1 (check_finished s) = x1 s" "x2 (check_finished s) = x2 s"
  "w1 (check_finished s) = w1 s" "w2 (check_finished s) = w2 s"
  "v1 (check_finished s) = v1 s" "v2 (check_finished s) = v2 s"
  "collisions (check_finished s) = collisions s"
  "finished (check_finished s) \<longleftrightarrow> finished s \<or> (0 \<le> v1 s \<and> 0 \<le> v2 s \<and> v2 s \<le> v1 s)"
  by (auto simp: check_finished_def)

lemma step_loop_finished:
  assumes "step_loop s dt = Some (Inr s')"
  shows "finished s' = finished s"
  by (rule step_loop_invariant[where I = "\<lambda>a. finished a = finished s", OF _ assms(1)])
     (use loop_body_frame(5) in auto)

section \<open>Construction\<close>

text \<open>
  Claim C5. Construction goes through \<^verbatim>\<open>App.reset_simulation\<close>, the only place that
  checks the mass. For a mass \<open>\<le> 0\<close> it raises \<^verbatim>\<open>ValueError\<close> (the specification's
  InvalidConfiguration) and builds no engine. For a mass \<open>> 0\<close> and any initial
  velocity it returns the engine \<^verbatim>\<open>PhysicsEngine(mass, velocity)\<close>, in which the small
  block is at rest, no collision is counted, \<open>finished\<close> is false, and the large block
  starts strictly to the right of the small block's right edge.
\<close>

theorem construction:
  "(mass \<le> 0 \<longrightarrow> reset_simulation mass velocity = Inl ValueError)
   \<and> (0 < mass \<longrightarrow>
        reset_simulation mass velocity = Inr (PhysicsEngine mass velocity)
        \<and> m1 (PhysicsEngine mass velocity) = mass
        \<and> v1 (PhysicsEngine mass velocity) = velocity
        \<and> v2 (PhysicsEngine mass velocity) = 0
        \<and> collisions (PhysicsEngine mass velocity) = 0
        \<and> \<not> finished (PhysicsEngine mass velocity)
        \<and> x2 (PhysicsEngine mass velocity) + w2 (PhysicsEngine mass velocity)
            < x1 (PhysicsEngine mass velocity))"
  by (simp add: reset_simulation_def PhysicsEngine_def)

theorem construction_witness:
  "(- 1 :: real) \<le> 0 \<and> reset_simulation (- 1) 5 = Inl ValueError
   \<and> (0 :: real) < 100 \<and> reset_simulation 100 (- 100) = Inr (PhysicsEngine 100 (- 100))
   \<and> v2 (PhysicsEngine 100 (- 100)) = 0
   \<and> collisions (PhysicsEngine 100 (- 100)) = 0
   \<and> \<not> finished (PhysicsEngine 100 (- 100))
   \<and> x2 (PhysicsEngine 100 (- 100)) + w2 (PhysicsEngine 100 (- 100)) < x1 (PhysicsEngine 100 (- 100))"
  using construction[of "- 1" 5] construction[of 100 "- 100"] by simp

section \<open>Ties between the wall and the block\<close>

text \<open>
  Claim C6. In a pass through the loop body where the time to the wall and the time to
  the other block are the same finite number \<open>t\<close>, and \<open>t\<close> is within the remaining
  time, the positions are advanced by \<open>t\<close> and the block resolution is applied to the
  result (the test \<^verbatim>\<open>t_wall < t_block\<close> is false), with \<open>t\<close> taken off the remaining time.
\<close>

theorem tie_resolves_block_collision:
  assumes "t_wall s = Inr (Fin t)" and "t_block s = Inr (Fin t)" and "t \<le> r"
  shows "loop_body s r =
           (case resolve_block_collision (move s t) of
              Inl e \<Rightarrow> Inl e
            | Inr s' \<Rightarrow> Inr (s', r - t))"
  using assms by (simp add: loop_body_def Let_def)

theorem tie_resolves_block_collision_witness:
  "t_wall ((PhysicsEngine 1 (- 7 / 2))\<lparr>v2 := - 2\<rparr>) = Inr (Fin 100)
   \<and> t_block ((PhysicsEngine 1 (- 7 / 2))\<lparr>v2 := - 2\<rparr>) = Inr (Fin 100)
   \<and> (100 :: real) \<le> 200
   \<and> loop_body ((PhysicsEngine 1 (- 7 / 2))\<lparr>v2 := - 2\<rparr>) 200
       = Inr ((PhysicsEngine 1 (- 7 / 2))\<lparr>x1 := 50, x2 := 0, v1 := - 2, v2 := - 7 / 2, collisions := 1\<rparr>, 100)"
proof -
  let ?s = "(PhysicsEngine 1 (- 7 / 2))\<lparr>v2 := - 2\<rparr>"
  have a: "t_wall ?s = Inr (Fin 100)" by (simp add: t_wall_def PhysicsEngine_def)
  have b: "t_block ?s = Inr (Fin 100)" by (simp add: t_block_def PhysicsEngine_def Let_def)
  have c: "(100 :: real) \<le> 200" by simp
  from tie_resolves_block_collision[OF a b c] a b c show ?thesis
    by (simp add: resolve_block_collision_def move_def PhysicsEngine_def Let_def)
qed

section \<open>The guards of the two event times\<close>

text \<open>
  Claim C9. In every pass through the loop body neither event time raises a division
  by zero: the divisions sit behind the strict tests \<^verbatim>\<open>v2 < 0\<close> and \<^verbatim>\<open>v1 < v2\<close>. When
  \<open>v2 \<ge> 0\<close> (in particular \<open>v2 = 0\<close>, wherever the small block is) the time to the wall
  is infinite, and a pass either only moves the blocks or resolves a block collision,
  never a wall collision. When \<open>v1 \<ge> v2\<close> (in particular \<open>v1 = v2\<close>) the time to the
  block is infinite, and a pass either only moves the blocks or resolves a wall
  collision. When both hold the pass only moves the blocks: the collision count and
  both velocities are unchanged.
\<close>
theorem guards_exclude_division_by_zero:
  "(\<exists>tw. t_wall s = Inr tw \<and> (0 \<le> v2 s \<longrightarrow> tw = PosInf))
   \<and> (\<exists>tb. t_block s = Inr tb \<and> (v2 s \<le> v1 s \<longrightarrow> tb = PosInf))
   \<and> (0 \<le> v2 s \<and> v2 s \<le> v1 s \<longrightarrow>
        loop_body s r = Inr (move s r, 0) \<and> collisions (move s r) = collisions s
        \<and> v1 (move s r) = v1 s \<and> v2 (move s r) = v2 s)
   \<and> (0 \<le> v2 s \<longrightarrow>
        (\<forall>s' r'. loop_body s r = Inr (s', r') \<longrightarrow>
           s' = move s r \<or> resolve_block_collision (move s (r - r')) = Inr s'))
   \<and> (v2 s \<le> v1 s \<longrightarrow>
        (\<forall>s' r'. loop_body s r = Inr (s', r') \<longrightarrow>
           s' = move s r \<or> s' = resolve_wall_collision (move s (r - r'))))"
proof -
  have a: "\<exists>tw. t_wall s = Inr tw \<and> (0 \<le> v2 s \<longrightarrow> tw = PosInf)"
    by (simp add: t_wall_eq)
  have b: "\<exists>tb. t_block s = Inr tb \<and> (v2 s \<le> v1 s \<longrightarrow> tb = PosInf)"
    by (simp add: t_block_eq)
  have c: "0 \<le> v2 s \<and> v2 s \<le> v1 s \<longrightarrow>
        loop_body s r = Inr (move s r, 0) \<and> collisions (move s r) = collisions s
        \<and> v1 (move s r) = v1 s \<and> v2 (move s r) = v2 s"
    by (simp add: loop_body_def t_wall_eq t_block_eq move_def)
  have d: "0 \<le> v2 s \<longrightarrow>
        (\<forall>s' r'. loop_body s r = Inr (s', r') \<longrightarrow>
           s' = move s r \<or> resolve_block_collision (move s (r - r')) = Inr s')"
  proof (intro impI allI)
    fix s' r' assume v: "0 \<le> v2 s" and l: "loop_body s r = Inr (s', r')"
    from l show "s' = move s r \<or> resolve_block_collision (move s (r - r')) = Inr s'"
    proof (cases rule: loop_body_cases)
      case drift then show ?thesis by simp
    next
      case (wall t) with v show ?thesis by simp
    next
      case (block t) then show ?thesis by simp
    qed
  qed
  have e: "v2 s \<le> v1 s \<longrightarrow>
        (\<forall>s' r'. loop_body s r = Inr (s', r') \<longrightarrow>
           s' = move s r \<or> s' = resolve_wall_collision (move s (r - r')))"
  proof (intro impI allI)
    fix s' r' assume v: "v2 s \<le> v1 s" and l: "loop_body s r = Inr (s', r')"
    from l show "s' = move s r \<or> s' = resolve_wall_collision (move s (r - r'))"
    proof (cases rule: loop_body_cases)
      case drift then show ?thesis by simp
    next
      case (wall t) then show ?thesis by simp
    next
      case (block t) with v show ?thesis by simp
    qed
  qed
  from a b c d e show ?thesis by blast
qed

theorem guards_exclude_division_by_zero_witness:
  "0 \<le> v2 ((PhysicsEngine 1 0)\<lparr>x2 := 0\<rparr>) \<and> v2 ((PhysicsEngine 1 0)\<lparr>x2 := 0\<rparr>) \<le> v1 ((PhysicsEngine 1 0)\<lparr>x2 := 0\<rparr>)
   \<and> t_wall ((PhysicsEngine 1 0)\<lparr>x2 := 0\<rparr>) = Inr PosInf
   \<and> t_block ((PhysicsEngine 1 0)\<lparr>x2 := 0\<rparr>) = Inr PosInf
   \<and> loop_body ((PhysicsEngine 1 0)\<lparr>x2 := 0\<rparr>) 1 = Inr ((PhysicsEngine 1 0)\<lparr>x2 := 0\<rparr>, 0)"
proof -
  let ?s = "(PhysicsEngine 1 0)\<lparr>x2 := 0\<rparr>"
  have a: "0 \<le> v2 ?s" and b: "v2 ?s \<le> v1 ?s" by (simp_all add: PhysicsEngine_def)
  have m: "move ?s 1 = ?s" by (simp add: move_def PhysicsEngine_def)
  from guards_exclude_division_by_zero[of ?s 1] a b show ?thesis
    unfolding m by auto
qed


section \<open>Calls with a time step that is not positive\<close>

text \<open>
  Claim C4 says that for \<open>dt \<le> 0\<close> the call either fails with InvalidArgument or
  leaves every field unchanged. The code does neither: it never rejects a \<open>dt\<close>, and
  although the loop is skipped, the test after the loop still runs and can set
  \<open>finished\<close>. A fresh engine whose large block is at rest is the example.
\<close>
theorem nonpositive_dt_counterexample:
  "(- 1 :: real) \<le> 0
   \<and> step (PhysicsEngine 1 0) (- 1) = Some (Inr ((PhysicsEngine 1 0)\<lparr>finished := True\<rparr>))
   \<and> finished ((PhysicsEngine 1 0)\<lparr>finished := True\<rparr>) \<noteq> finished (PhysicsEngine 1 0)"
  by (simp add: step_def step_loop_exit check_finished_def PhysicsEngine_def)

text \<open>
  Claim C4, amended. For \<open>dt \<le> 0\<close> the call returns without an exception; positions,
  velocities, masses, widths and the collision count are unchanged; and \<open>finished\<close>
  afterwards is true exactly when it was true before or both blocks move away from the
  wall with the large one at least as fast as the small one.
\<close>

theorem nonpositive_dt:
  assumes "dt \<le> 0"
  shows "step s dt = Some (Inr (check_finished s))
         \<and> x1 (check_finished s) = x1 s \<and> x2 (check_finished s) = x2 s
         \<and> v1 (check_finished s) = v1 s \<and> v2 (check_finished s) = v2 s
         \<and> m1 (check_finished s) = m1 s \<and> m2 (check_finished s) = m2 s
         \<and> w1 (check_finished s) = w1 s \<and> w2 (check_finished s) = w2 s
         \<and> collisions (check_finished s) = collisions s
         \<and> (finished (check_finished s)
              \<longleftrightarrow> finished s \<or> (0 \<le> v1 s \<and> 0 \<le> v2 s \<and> v2 s \<le> v1 s))"
  using assms by (simp add: step_def step_loop_exit check_finished_fields)

theorem nonpositive_dt_witness:
  "(0 :: real) \<le> 0
   \<and> step (PhysicsEngine 100 (- 100)) 0 = Some (Inr (PhysicsEngine 100 (- 100)))
   \<and> step (PhysicsEngine 100 0) 0 = Some (Inr ((PhysicsEngine 100 0)\<lparr>finished := True\<rparr>))"
  using nonpositive_dt[of 0 "PhysicsEngine 100 (- 100)"] nonpositive_dt[of 0 "PhysicsEngine 100 0"]
  by (simp add: PhysicsEngine_def check_finished_def)

section \<open>The finished flag\<close>

lemma step_loop_terminal:
  assumes "0 \<le> v2 s" "v2 s \<le> v1 s"
  shows "step_loop s dt = Some (Inr (if 0 < dt then move s dt else s))"
proof (cases "0 < dt")
  case False
  then show ?thesis by (simp add: step_loop_exit)
next
  case True
  have "loop_body s dt = Inr (move s dt, 0)"
    using assms by (simp add: loop_body_def t_wall_eq t_block_eq)
  from step_loop_iter[OF True this] True show ?thesis by (simp add: step_loop_exit)
qed

lemma step_finished:
  assumes "step s dt = Some (Inr s')" "finished s"
  shows "finished s'"
  using assms step_loop_finished by (auto simp: step_Inr_iff check_finished_fields)

text \<open>
  Claim C7. If \<open>finished\<close> is true, it is true after every call of \<^verbatim>\<open>step\<close> that returns,
  whatever the \<open>dt\<close>, and so after any sequence of calls (\<^verbatim>\<open>step\<close> only ever assigns
  \<^verbatim>\<open>True\<close> to it).
\<close>

theorem finished_is_stable:
  assumes "finished s" and "run s dts = Some (Inr s')"
  shows "finished s'"
  using assms
proof (induction dts arbitrary: s)
  case Nil
  then show ?case by simp
next
  case (Cons dt dts)
  from Cons.prems(2) obtain s1 where s1: "step s dt = Some (Inr s1)" and r: "run s1 dts = Some (Inr s')"
    by (auto split: option.splits sum.splits)
  from step_finished[OF s1 Cons.prems(1)] have "finished s1" .
  from Cons.IH[OF this r] show ?case .
qed

theorem finished_is_stable_witness:
  "finished ((PhysicsEngine 1 1)\<lparr>finished := True\<rparr>)
   \<and> run ((PhysicsEngine 1 1)\<lparr>finished := True\<rparr>) [1, 2]
       = Some (Inr ((PhysicsEngine 1 1)\<lparr>x1 := 403, finished := True\<rparr>))
   \<and> finished ((PhysicsEngine 1 1)\<lparr>x1 := 403, finished := True\<rparr>)"
proof -
  let ?s = "(PhysicsEngine 1 1)\<lparr>finished := True\<rparr>"
  let ?s' = "(PhysicsEngine 1 1)\<lparr>x1 := 403, finished := True\<rparr>"
  have a: "finished ?s" by simp
  have t: "0 \<le> v2 ?s" "v2 ?s \<le> v1 ?s" by (simp_all add: PhysicsEngine_def)
  let ?s1 = "(PhysicsEngine 1 1)\<lparr>x1 := 401, finished := True\<rparr>"
  have t1: "0 \<le> v2 ?s1" "v2 ?s1 \<le> v1 ?s1" by (simp_all add: PhysicsEngine_def)
  have s1: "step ?s 1 = Some (Inr ?s1)"
    unfolding step_def step_loop_terminal[OF t]
    by (simp add: move_def check_finished_def PhysicsEngine_def)
  have s2: "step ?s1 2 = Some (Inr ?s')"
    unfolding step_def step_loop_terminal[OF t1]
    by (simp add: move_def check_finished_def PhysicsEngine_def)
  have b: "run ?s [1, 2] = Some (Inr ?s')" by (simp add: s1 s2)
  from finished_is_stable[OF a b] a b show ?thesis by simp
qed


section \<open>After the last collision\<close>

lemma step_keeps_finished_terminal:
  assumes "step s dt = Some (Inr s')"
    and "finished s \<longrightarrow> 0 \<le> v2 s \<and> v2 s \<le> v1 s"
  shows "finished s' \<longrightarrow> 0 \<le> v2 s' \<and> v2 s' \<le> v1 s'"
proof
  assume f: "finished s'"
  from assms(1) obtain s1 where l: "step_loop s dt = Some (Inr s1)" and s': "s' = check_finished s1"
    by (auto simp: step_Inr_iff)
  show "0 \<le> v2 s' \<and> v2 s' \<le> v1 s'"
  proof (cases "finished s")
    case True
    with assms(2) have t: "0 \<le> v2 s" "v2 s \<le> v1 s" by simp_all
    from l step_loop_terminal[OF t, of dt] have "v1 s1 = v1 s \<and> v2 s1 = v2 s"
      by (auto simp: move_def split: if_splits)
    with t show ?thesis by (simp add: s' check_finished_fields)
  next
    case False
    with step_loop_finished[OF l] have "\<not> finished s1" by simp
    with f show ?thesis by (auto simp: s' check_finished_fields)
  qed
qed

lemma run_keeps_finished_terminal:
  assumes "run s dts = Some (Inr s')"
    and "finished s \<longrightarrow> 0 \<le> v2 s \<and> v2 s \<le> v1 s"
  shows "finished s' \<longrightarrow> 0 \<le> v2 s' \<and> v2 s' \<le> v1 s'"
  using assms
proof (induction dts arbitrary: s)
  case Nil
  then show ?case by simp
next
  case (Cons dt dts)
  from Cons.prems(1) obtain s1 where s1: "step s dt = Some (Inr s1)" and r: "run s1 dts = Some (Inr s')"
    by (auto split: option.splits sum.splits)
  from Cons.IH[OF r step_keeps_finished_terminal[OF s1 Cons.prems(2)]] show ?case .
qed

lemma run_terminal:
  assumes "0 \<le> v2 s" "v2 s \<le> v1 s" "finished s"
  shows "\<exists>s'. run s dts = Some (Inr s') \<and> v1 s' = v1 s \<and> v2 s' = v2 s
              \<and> collisions s' = collisions s \<and> finished s'"
  using assms
proof (induction dts arbitrary: s)
  case Nil
  then show ?case by simp
next
  case (Cons dt dts)
  let ?s1 = "check_finished (if 0 < dt then move s dt else s)"
  have st: "step s dt = Some (Inr ?s1)"
    by (simp add: step_def step_loop_terminal[OF Cons.prems(1,2)])
  have f: "v1 ?s1 = v1 s" "v2 ?s1 = v2 s" "collisions ?s1 = collisions s" "finished ?s1"
    using Cons.prems by (simp_all add: check_finished_fields move_def)
  have "0 \<le> v2 ?s1" "v2 ?s1 \<le> v1 ?s1" using f Cons.prems by simp_all
  from Cons.IH[OF this f(4)] obtain s' where
    "run ?s1 dts = Some (Inr s')" "v1 s' = v1 ?s1" "v2 s' = v2 ?s1"
    "collisions s' = collisions ?s1" "finished s'" by blast
  then show ?case using st f by simp
qed

text \<open>
  Claim C8. Take an engine built by \<^verbatim>\<open>reset_simulation\<close> and any sequence of calls of
  \<^verbatim>\<open>step\<close> on it. If \<open>finished\<close> is true in the state reached, then every later
  sequence of calls returns, and leaves both velocities and the collision count as
  they were (and \<open>finished\<close> true): no further collision is resolved.
\<close>
theorem no_collision_after_finished:
  assumes "reset_simulation mass velocity = Inr s0"
    and "run s0 dts = Some (Inr s)"
    and "finished s"
  shows "\<exists>s'. run s later = Some (Inr s') \<and> v1 s' = v1 s \<and> v2 s' = v2 s
              \<and> collisions s' = collisions s \<and> finished s'"
proof -
  have "\<not> finished s0" using assms(1)
    by (auto simp: reset_simulation_def PhysicsEngine_def split: if_splits)
  then have "finished s0 \<longrightarrow> 0 \<le> v2 s0 \<and> v2 s0 \<le> v1 s0" by simp
  from run_keeps_finished_terminal[OF assms(2) this] assms(3)
  have "0 \<le> v2 s" "v2 s \<le> v1 s" by simp_all
  from run_terminal[OF this assms(3)] show ?thesis .
qed

theorem no_collision_after_finished_witness:
  "reset_simulation 1 1 = Inr (PhysicsEngine 1 1)
   \<and> run (PhysicsEngine 1 1) [1] = Some (Inr ((PhysicsEngine 1 1)\<lparr>x1 := 401, finished := True\<rparr>))
   \<and> finished ((PhysicsEngine 1 1)\<lparr>x1 := 401, finished := True\<rparr>)
   \<and> (\<exists>s'. run ((PhysicsEngine 1 1)\<lparr>x1 := 401, finished := True\<rparr>) [2, 3] = Some (Inr s')
          \<and> v1 s' = 1 \<and> v2 s' = 0 \<and> collisions s' = 0 \<and> finished s')"
proof -
  let ?s0 = "PhysicsEngine 1 1"
  let ?s1 = "(PhysicsEngine 1 1)\<lparr>x1 := 401, finished := True\<rparr>"
  have a: "reset_simulation 1 1 = Inr ?s0" by (simp add: reset_simulation_def)
  have t: "0 \<le> v2 ?s0" "v2 ?s0 \<le> v1 ?s0" by (simp_all add: PhysicsEngine_def)
  have s1: "step ?s0 1 = Some (Inr ?s1)"
    unfolding step_def step_loop_terminal[OF t]
    by (simp add: move_def check_finished_def PhysicsEngine_def)
  have b: "run ?s0 [1] = Some (Inr ?s1)" by (simp add: s1)
  have c: "finished ?s1" by simp
  from no_collision_after_finished[OF a b c, of "[2, 3]"] a b c show ?thesis
    by (auto simp: PhysicsEngine_def)
qed

section \<open>The time to a resolved event\<close>




section \<open>The engine in exact arithmetic\<close>

text \<open>
  From here on every sum, product and quotient of the engine is taken to be exact. The
  proofs combine and cancel fractions, so what they show does not carry over to a run
  in which an operation is rounded to the nearest double: there the identities below
  hold up to the rounding error at best, and the inequalities that follow from them
  can fail. Nothing in the sections above uses a result of this section.
\<close>

subsection \<open>The block resolution is an elastic collision\<close>

lemma comb1: "(a::real) * (A / d) + b * (B / d) = (a * A + b * B) / d"
  by (simp add: add_divide_distrib)

lemma comb2: "(a::real) * (A / d)\<^sup>2 + b * (B / d)\<^sup>2 = (a * A\<^sup>2 + b * B\<^sup>2) / d\<^sup>2"
  by (simp add: power_divide add_divide_distrib)

lemma block_momentum:
  fixes ma mb u1 u2 :: real
  assumes "ma + mb \<noteq> 0"
  shows "ma * (((ma - mb) * u1 + 2 * mb * u2) / (ma + mb))
       + mb * (((mb - ma) * u2 + 2 * ma * u1) / (ma + mb)) = ma * u1 + mb * u2"
proof -
  have "ma * (((ma - mb) * u1 + 2 * mb * u2) / (ma + mb))
       + mb * (((mb - ma) * u2 + 2 * ma * u1) / (ma + mb))
      = (ma * ((ma - mb) * u1 + 2 * mb * u2) + mb * ((mb - ma) * u2 + 2 * ma * u1)) / (ma + mb)"
    by (rule comb1)
  also have "ma * ((ma - mb) * u1 + 2 * mb * u2) + mb * ((mb - ma) * u2 + 2 * ma * u1)
      = (ma * u1 + mb * u2) * (ma + mb)"
    by (simp add: algebra_simps)
  finally show ?thesis using assms by simp
qed

lemma block_energy:
  fixes ma mb u1 u2 :: real
  assumes "ma + mb \<noteq> 0"
  shows "ma * (((ma - mb) * u1 + 2 * mb * u2) / (ma + mb))\<^sup>2
       + mb * (((mb - ma) * u2 + 2 * ma * u1) / (ma + mb))\<^sup>2 = ma * u1\<^sup>2 + mb * u2\<^sup>2"
proof -
  have "ma * (((ma - mb) * u1 + 2 * mb * u2) / (ma + mb))\<^sup>2
       + mb * (((mb - ma) * u2 + 2 * ma * u1) / (ma + mb))\<^sup>2
      = (ma * ((ma - mb) * u1 + 2 * mb * u2)\<^sup>2 + mb * ((mb - ma) * u2 + 2 * ma * u1)\<^sup>2)
        / (ma + mb)\<^sup>2"
    by (rule comb2)
  also have "ma * ((ma - mb) * u1 + 2 * mb * u2)\<^sup>2 + mb * ((mb - ma) * u2 + 2 * ma * u1)\<^sup>2
      = (ma * u1\<^sup>2 + mb * u2\<^sup>2) * (ma + mb)\<^sup>2"
    by (simp add: power2_eq_square algebra_simps)
  finally show ?thesis using assms by simp
qed

lemma block_relative:
  fixes ma mb u1 u2 :: real
  assumes "ma + mb \<noteq> 0"
  shows "((ma - mb) * u1 + 2 * mb * u2) / (ma + mb)
       - ((mb - ma) * u2 + 2 * ma * u1) / (ma + mb) = - (u1 - u2)"
proof -
  have "((ma - mb) * u1 + 2 * mb * u2) / (ma + mb)
       - ((mb - ma) * u2 + 2 * ma * u1) / (ma + mb)
      = (((ma - mb) * u1 + 2 * mb * u2) - ((mb - ma) * u2 + 2 * ma * u1)) / (ma + mb)"
    by (simp add: diff_divide_distrib)
  also have "((ma - mb) * u1 + 2 * mb * u2) - ((mb - ma) * u2 + 2 * ma * u1)
      = (- (u1 - u2)) * (ma + mb)"
    by (simp add: algebra_simps)
  finally show ?thesis using assms by simp
qed

text \<open>
  In exact arithmetic, for a large mass \<open>m1 > 0\<close> and the small mass \<open>m2 = 1\<close>, the block
  resolution keeps the total momentum \<open>m1 v1 + m2 v2\<close> and the total kinetic energy
  \<open>m1 v1\<^sup>2 + m2 v2\<^sup>2\<close>.
\<close>

lemma exact_block_collision_conserves:
  assumes "0 < m1 s" and "m2 s = 1"
  shows "\<exists>s'. resolve_block_collision s = Inr s'
           \<and> v1 s' = ((m1 s - m2 s) * v1 s + 2 * m2 s * v2 s) / (m1 s + m2 s)
           \<and> v2 s' = ((m2 s - m1 s) * v2 s + 2 * m1 s * v1 s) / (m1 s + m2 s)
           \<and> m1 s' = m1 s \<and> m2 s' = m2 s
           \<and> m1 s' * v1 s' + m2 s' * v2 s' = m1 s * v1 s + m2 s * v2 s
           \<and> m1 s' * (v1 s')\<^sup>2 + m2 s' * (v2 s')\<^sup>2 = m1 s * (v1 s)\<^sup>2 + m2 s * (v2 s)\<^sup>2"
proof -
  have nz: "m1 s + m2 s \<noteq> 0" using assms by simp
  show ?thesis
    unfolding resolve_block_eq[OF nz]
    using block_momentum[OF nz, of "v1 s" "v2 s"] block_energy[OF nz, of "v1 s" "v2 s"]
    by simp
qed

lemma exact_block_collision_conserves_example:
  "0 < m1 (PhysicsEngine 3 (- 2)) \<and> m2 (PhysicsEngine 3 (- 2)) = 1
   \<and> (\<exists>s'. resolve_block_collision (PhysicsEngine 3 (- 2)) = Inr s'
          \<and> v1 s' = - 1 \<and> v2 s' = - 3
          \<and> m1 s' * v1 s' + m2 s' * v2 s' = - 6
          \<and> m1 s' * (v1 s')\<^sup>2 + m2 s' * (v2 s')\<^sup>2 = 12)"
proof -
  have a: "0 < m1 (PhysicsEngine 3 (- 2))" and b: "m2 (PhysicsEngine 3 (- 2)) = 1"
    by (simp_all add: PhysicsEngine_def)
  from exact_block_collision_conserves[OF a b] show ?thesis
    by (auto simp: PhysicsEngine_def)
qed

text \<open>
  In exact arithmetic the block resolution reverses the relative velocity,
  \<open>v1' - v2' = - (u1 - u2)\<close>, so after a resolution under the guard \<open>u1 < u2\<close> the
  blocks separate.
\<close>

lemma exact_block_collision_reverses_relative_velocity:
  assumes "0 < m1 s" and "m2 s = 1"
  shows "\<exists>s'. resolve_block_collision s = Inr s'
           \<and> v1 s' - v2 s' = - (v1 s - v2 s)
           \<and> (v1 s < v2 s \<longrightarrow> v2 s' < v1 s' \<and> t_block s' = Inr PosInf)"
proof -
  have nz: "m1 s + m2 s \<noteq> 0" using assms by simp
  show ?thesis
    unfolding resolve_block_eq[OF nz] t_block_eq
    using block_relative[OF nz, of "v1 s" "v2 s"]
    by simp
qed

lemma exact_block_collision_reverses_relative_velocity_example:
  "0 < m1 (PhysicsEngine 3 (- 2)) \<and> m2 (PhysicsEngine 3 (- 2)) = 1
   \<and> v1 (PhysicsEngine 3 (- 2)) < v2 (PhysicsEngine 3 (- 2))
   \<and> (\<exists>s'. resolve_block_collision (PhysicsEngine 3 (- 2)) = Inr s'
          \<and> v1 s' - v2 s' = 2 \<and> v2 s' < v1 s' \<and> t_block s' = Inr PosInf)"
proof -
  have a: "0 < m1 (PhysicsEngine 3 (- 2))" and b: "m2 (PhysicsEngine 3 (- 2)) = 1"
    by (simp_all add: PhysicsEngine_def)
  from exact_block_collision_reverses_relative_velocity[OF a b] show ?thesis
    by (auto simp: PhysicsEngine_def)
qed

subsection \<open>Every collision lowers the rank\<close>

lemma energy_move [simp]: "energy (move s t) = energy s"
  by (simp add: energy_def move_def)

lemma rank_move [simp]: "rank (move s t) = rank s"
  by (simp add: rank_def potential_def vmax_def energy_def move_def)

lemma potential_wall: "potential (resolve_wall_collision s) = potential s"
  by (simp add: potential_def vmax_def energy_def resolve_wall_collision_def)

lemma rank_wall: "v2 s < 0 \<Longrightarrow> rank (resolve_wall_collision s) < rank s"
  unfolding rank_def potential_wall
  by (simp add: resolve_wall_collision_def)

lemma energy_pos:
  assumes "0 < m1 s" "0 < m2 s" "v1 s < v2 s"
  shows "0 < energy s"
proof -
  have "v1 s \<noteq> 0 \<or> v2 s \<noteq> 0" using assms by auto
  then have "0 < (v1 s)\<^sup>2 \<or> 0 < (v2 s)\<^sup>2" by auto
  moreover have "0 \<le> m1 s * (v1 s)\<^sup>2" "0 \<le> m2 s * (v2 s)\<^sup>2" using assms by auto
  moreover have "0 < (v1 s)\<^sup>2 \<Longrightarrow> 0 < m1 s * (v1 s)\<^sup>2" using assms by simp
  moreover have "0 < (v2 s)\<^sup>2 \<Longrightarrow> 0 < m2 s * (v2 s)\<^sup>2" using assms by simp
  ultimately show ?thesis unfolding energy_def by linarith
qed

lemma v1_le_vmax:
  assumes "0 < m1 s" "0 < m2 s"
  shows "v1 s \<le> vmax s"
proof -
  have "m1 s * (v1 s)\<^sup>2 \<le> energy s" using assms by (simp add: energy_def)
  then have "(v1 s)\<^sup>2 \<le> energy s / m1 s" using assms by (simp add: field_simps)
  then have "sqrt ((v1 s)\<^sup>2) \<le> vmax s" unfolding vmax_def by (rule real_sqrt_le_mono)
  then show ?thesis by simp
qed

lemma potential_nonneg:
  assumes "0 < m1 s" "0 < m2 s"
  shows "0 \<le> potential s"
proof -
  have "0 \<le> vmax s" by (simp add: vmax_def energy_def assms less_imp_le)
  moreover have "0 \<le> vmax s - v1 s" using v1_le_vmax[OF assms] by simp
  ultimately show ?thesis unfolding potential_def using assms by simp
qed

lemma energy_block:
  assumes "resolve_block_collision s = Inr s'"
  shows "energy s' = energy s"
  unfolding energy_def resolve_block_fields(2,3,10,11)[OF assms]
  by (rule block_energy) (rule resolve_block_fields(1)[OF assms])

lemma relative_block:
  assumes "resolve_block_collision s = Inr s'"
  shows "v1 s' - v2 s' = - (v1 s - v2 s)"
  unfolding resolve_block_fields(10,11)[OF assms]
  by (rule block_relative) (rule resolve_block_fields(1)[OF assms])

lemma v1_block:
  assumes "resolve_block_collision s = Inr s'"
  shows "v1 s' = v1 s + 2 * m2 s * (v2 s - v1 s) / (m1 s + m2 s)"
proof -
  have nz: "m1 s + m2 s \<noteq> 0" by (rule resolve_block_fields(1)[OF assms])
  have "v1 s + 2 * m2 s * (v2 s - v1 s) / (m1 s + m2 s)
      = (v1 s * (m1 s + m2 s) + 2 * m2 s * (v2 s - v1 s)) / (m1 s + m2 s)"
    using nz by (simp add: add_divide_distrib)
  also have "v1 s * (m1 s + m2 s) + 2 * m2 s * (v2 s - v1 s)
      = (m1 s - m2 s) * v1 s + 2 * m2 s * v2 s"
    by (simp add: algebra_simps)
  finally show ?thesis unfolding resolve_block_fields(10)[OF assms] by simp
qed

lemma potential_shift:
  fixes M b R u d :: real
  assumes "0 < M" "0 < b" "0 < R"
  shows "M * (R - (u + 2 * b * d / M)) / (2 * b * R) = M * (R - u) / (2 * b * R) - d / R"
proof -
  have "M * (R - (u + 2 * b * d / M)) = M * (R - u) - 2 * b * d"
    using assms(1) by (simp add: algebra_simps)
  then have "M * (R - (u + 2 * b * d / M)) / (2 * b * R)
      = M * (R - u) / (2 * b * R) - (2 * b * d) / (2 * b * R)"
    by (simp add: diff_divide_distrib)
  also have "(2 * b * d) / (2 * b * R) = d / R"
    using assms(2) by simp
  finally show ?thesis .
qed

lemma potential_block:
  assumes "resolve_block_collision s = Inr s'" "0 < m1 s" "0 < m2 s" "v1 s < v2 s"
  shows "potential s' = potential s - (v2 s - v1 s) / vmax s"
proof -
  have R: "vmax s' = vmax s"
    by (simp add: vmax_def energy_block[OF assms(1)] resolve_block_fields(2)[OF assms(1)])
  have Rpos: "0 < vmax s"
    unfolding vmax_def using energy_pos[OF assms(2,3,4)] assms(2) by simp
  have M: "0 < m1 s + m2 s" using assms by simp
  show ?thesis
    unfolding potential_def R resolve_block_fields(2,3)[OF assms(1)] v1_block[OF assms(1)]
    by (rule potential_shift[OF M assms(3) Rpos])
qed

lemma good_block:
  assumes "resolve_block_collision s = Inr s'" "0 < m1 s" "0 < m2 s" "v1 s < v2 s"
    and "0 \<le> v2 s" "v2 s' < 0"
  shows "vmax s \<le> v2 s - v1 s"
proof -
  have M: "0 < m1 s + m2 s" using assms by simp
  have "((m2 s - m1 s) * v2 s + 2 * m1 s * v1 s) / (m1 s + m2 s) < 0"
    using assms(6) unfolding resolve_block_fields(11)[OF assms(1)] .
  then have "(m2 s - m1 s) * v2 s + 2 * m1 s * v1 s < 0"
    using M by (simp add: divide_less_0_iff)
  then have "((m2 s - m1 s) * v2 s + 2 * m1 s * v1 s) * v2 s \<le> 0"
    using assms(5) by (simp add: mult_le_0_iff)
  then have "energy s \<le> m1 s * (v2 s - v1 s)\<^sup>2"
    unfolding energy_def by (simp add: power2_eq_square algebra_simps)
  then have "energy s / m1 s \<le> (v2 s - v1 s)\<^sup>2"
    using assms(2) by (simp add: field_simps)
  then have "vmax s \<le> sqrt ((v2 s - v1 s)\<^sup>2)"
    unfolding vmax_def by (rule real_sqrt_le_mono)
  then show ?thesis using assms(4) by simp
qed

lemma rank_block:
  assumes "resolve_block_collision s = Inr s'" "0 < m1 s" "0 < m2 s" "v1 s < v2 s"
  shows "rank s' < rank s"
proof -
  have sep: "v2 s' < v1 s'" using relative_block[OF assms(1)] assms(4) by simp
  have m': "0 < m1 s'" "0 < m2 s'" using assms by (simp_all add: resolve_block_fields)
  have Rpos: "0 < vmax s"
    unfolding vmax_def using energy_pos[OF assms(2,3,4)] assms(2) by simp
  have p: "potential s' = potential s - (v2 s - v1 s) / vmax s"
    by (rule potential_block[OF assms])
  have p'0: "0 \<le> potential s'" by (rule potential_nonneg[OF m'])
  have ple: "potential s' \<le> potential s"
    unfolding p using Rpos assms(4) by simp
  show ?thesis
  proof (cases "0 \<le> v2 s'")
    case True
    then show ?thesis using sep assms(4) by (simp add: rank_def)
  next
    case neg: False
    show ?thesis
    proof (cases "0 \<le> v2 s")
      case True
      have "vmax s \<le> v2 s - v1 s"
        using good_block[OF assms True] neg by simp
      then have "1 \<le> (v2 s - v1 s) / vmax s" using Rpos by simp
      then have "potential s' + 1 \<le> potential s" unfolding p by simp
      then have "\<lfloor>potential s'\<rfloor> + 1 \<le> \<lfloor>potential s\<rfloor>" by linarith
      moreover have "0 \<le> \<lfloor>potential s'\<rfloor>" using p'0 by simp
      ultimately have "nat \<lfloor>potential s'\<rfloor> + 1 \<le> nat \<lfloor>potential s\<rfloor>" by linarith
      then show ?thesis using sep assms(4) neg True by (simp add: rank_def)
    next
      case False
      have "\<lfloor>potential s'\<rfloor> \<le> \<lfloor>potential s\<rfloor>" using ple by (rule floor_mono)
      then have "nat \<lfloor>potential s'\<rfloor> \<le> nat \<lfloor>potential s\<rfloor>" by simp
      then show ?thesis using sep assms(4) neg False by (simp add: rank_def)
    qed
  qed
qed

lemma loop_body_progress:
  assumes "loop_body s r = Inr (s', r')" "0 < m1 s" "0 < m2 s"
  shows "(s' = move s r \<and> r' = 0) \<or> (rank s' < rank s \<and> collisions s' = collisions s + 1)"
  using assms(1)
proof (cases rule: loop_body_cases)
  case drift
  then show ?thesis by simp
next
  case (wall t)
  have "v2 (move s t) < 0" using wall(1) by (simp add: move_def)
  from rank_wall[OF this] have "rank s' < rank s" using wall(4) by simp
  moreover have "collisions s' = collisions s + 1"
    by (simp add: wall(4) resolve_wall_collision_def move_def)
  ultimately show ?thesis by simp
next
  case (block t)
  have "0 < m1 (move s t)" "0 < m2 (move s t)" "v1 (move s t) < v2 (move s t)"
    using assms(2,3) block(1) by (simp_all add: move_def)
  from rank_block[OF block(4) this] have "rank s' < rank s" by simp
  moreover have "collisions s' = collisions s + 1"
    by (simp add: resolve_block_fields(9)[OF block(4)] move_def)
  ultimately show ?thesis by simp
qed

lemma step_loop_bounded:
  assumes "0 < m1 s" "0 < m2 s"
  shows "\<exists>s'. step_loop s r = Some (Inr s') \<and> collisions s' \<le> collisions s + int (rank s)"
  using assms
proof (induction "rank s" arbitrary: s r rule: less_induct)
  case less
  show ?case
  proof (cases "0 < r")
    case False
    then show ?thesis by (simp add: step_loop_exit)
  next
    case True
    have "m1 s + m2 s \<noteq> 0" using less.prems by simp
    then obtain s1 r1 where body: "loop_body s r = Inr (s1, r1)"
      using loop_body_total by blast
    have eq: "step_loop s r = step_loop s1 r1" by (rule step_loop_iter[OF True body])
    have m: "0 < m1 s1" "0 < m2 s1" using loop_body_frame[OF body] less.prems by simp_all
    from loop_body_progress[OF body less.prems] show ?thesis
    proof
      assume "s1 = move s r \<and> r1 = 0"
      then show ?thesis unfolding eq by (simp add: step_loop_exit move_def)
    next
      assume a: "rank s1 < rank s \<and> collisions s1 = collisions s + 1"
      then have "rank s1 < rank s" by simp
      from less.hyps[OF this m, of r1] obtain s' where
        "step_loop s1 r1 = Some (Inr s')" "collisions s' \<le> collisions s1 + int (rank s1)" by blast
      then show ?thesis unfolding eq using a by auto
    qed
  qed
qed

lemma step_loop_terminates:
  assumes "0 < m1 s" "0 < m2 s"
  shows "\<exists>s'. step_loop s r = Some (Inr s')"
  using step_loop_bounded[OF assms, of r] by blast

lemma step_terminates:
  assumes "0 < m1 s" "0 < m2 s"
  shows "\<exists>s'. step s dt = Some (Inr s')"
  using step_loop_terminates[OF assms, of dt] by (auto simp: step_Inr_iff)

subsection \<open>The positions stay in order\<close>

lemma mult_div_abs_neg: "(u::real) < 0 \<Longrightarrow> u * (a / \<bar>u\<bar>) = - a"
  by (simp add: field_simps)

lemma loop_body_positions:
  assumes body: "loop_body s r = Inr (s', r')" and r: "0 < r"
    and inv: "0 \<le> x2 s" "x2 s + w2 s \<le> x1 s"
  shows "0 \<le> x2 s' \<and> x2 s' + w2 s' \<le> x1 s'"
  using body
proof (cases rule: loop_body_cases)
  case drift
  have a: "0 \<le> x2 s + v2 s * r"
  proof (cases "v2 s < 0")
    case True
    have c: "0 < \<bar>v2 s\<bar>" using True by simp
    from drift(3)[OF True] have "r * \<bar>v2 s\<bar> < x2 s"
      using c by (simp only: pos_less_divide_eq)
    then show ?thesis using True by (simp add: algebra_simps)
  next
    case False
    then have "0 \<le> v2 s * r" using r by simp
    then show ?thesis using inv(1) by linarith
  qed
  have b: "x2 s + v2 s * r + w2 s \<le> x1 s + v1 s * r"
  proof (cases "v1 s < v2 s")
    case True
    have c: "0 < v2 s - v1 s" using True by simp
    from drift(4)[OF True] have "r * (v2 s - v1 s) < x1 s - (x2 s + w2 s)"
      using c by (simp only: pos_less_divide_eq)
    then show ?thesis by (simp add: algebra_simps)
  next
    case False
    then have "v2 s * r \<le> v1 s * r" using r by simp
    then show ?thesis using inv(2) by linarith
  qed
  from a b show ?thesis by (simp add: drift(1) move_def)
next
  case (wall t)
  have t0: "0 \<le> t" unfolding wall(2) using inv(1) by (intro divide_nonneg_nonneg) simp_all
  have a: "x2 s + v2 s * t = 0"
    unfolding wall(2) using mult_div_abs_neg[OF wall(1)] by simp
  have b: "x2 s + v2 s * t + w2 s \<le> x1 s + v1 s * t"
  proof (cases "v1 s < v2 s")
    case True
    have c: "0 < v2 s - v1 s" using True by simp
    from wall(6)[OF True] have "t * (v2 s - v1 s) < x1 s - (x2 s + w2 s)"
      using c by (simp only: pos_less_divide_eq)
    then show ?thesis by (simp add: algebra_simps)
  next
    case False
    then have "v2 s * t \<le> v1 s * t" using t0 by (simp add: mult_right_mono)
    then show ?thesis using inv(2) by linarith
  qed
  from a b show ?thesis by (simp add: wall(4) move_def resolve_wall_collision_def)
next
  case (block t)
  have d: "0 < v2 s - v1 s" using block(1) by simp
  have t0: "0 \<le> t" using block(1,2) inv(2) by simp
  have "t * (v2 s - v1 s) = x1 s - (x2 s + w2 s)"
    unfolding block(2) using d by simp
  then have b: "x2 s + v2 s * t + w2 s \<le> x1 s + v1 s * t"
    by (simp add: algebra_simps)
  have a: "0 \<le> x2 s + v2 s * t"
  proof (cases "v2 s < 0")
    case True
    have c: "0 < \<bar>v2 s\<bar>" using True by simp
    from block(6)[OF True] have "t * \<bar>v2 s\<bar> \<le> x2 s"
      using c by (simp only: pos_le_divide_eq)
    then show ?thesis using True by (simp add: algebra_simps)
  next
    case False
    then have "0 \<le> v2 s * t" using t0 by simp
    then show ?thesis using inv(1) by linarith
  qed
  from a b show ?thesis
    by (simp add: resolve_block_fields[OF block(4)] move_def)
qed

lemma step_loop_positions:
  assumes "step_loop s dt = Some (Inr s')" "0 \<le> x2 s" "x2 s + w2 s \<le> x1 s"
  shows "0 \<le> x2 s' \<and> x2 s' + w2 s' \<le> x1 s'"
  by (rule step_loop_invariant[where I = "\<lambda>s. 0 \<le> x2 s \<and> x2 s + w2 s \<le> x1 s", OF _ assms(1)])
     (use assms(2,3) loop_body_positions in auto)

text \<open>
  A call worked by hand: equal masses, the large block coming in at speed 100, and
  \<open>dt = 2\<close>. The blocks meet after 1.5 and swap velocities; in the remaining 0.5 the
  small block moves 50 towards the wall.
\<close>

lemma example_first_pass:
  "loop_body (PhysicsEngine 1 (- 100)) 2
     = Inr ((PhysicsEngine 1 (- 100))\<lparr>x1 := 250, v1 := 0, v2 := - 100, collisions := 1\<rparr>, 1 / 2)"
  by (simp add: loop_body_def t_wall_def t_block_def resolve_block_collision_def move_def
        PhysicsEngine_def Let_def)

lemma example_second_pass:
  "loop_body ((PhysicsEngine 1 (- 100))\<lparr>x1 := 250, v1 := 0, v2 := - 100, collisions := 1\<rparr>) (1 / 2)
     = Inr ((PhysicsEngine 1 (- 100))\<lparr>x1 := 250, x2 := 150, v1 := 0, v2 := - 100, collisions := 1\<rparr>, 0)"
  by (simp add: loop_body_def t_wall_def t_block_def move_def PhysicsEngine_def Let_def)

lemma example_step:
  "step (PhysicsEngine 1 (- 100)) 2
     = Some (Inr ((PhysicsEngine 1 (- 100))\<lparr>x1 := 250, x2 := 150, v1 := 0, v2 := - 100, collisions := 1\<rparr>))"
proof -
  have "step_loop (PhysicsEngine 1 (- 100)) 2
      = Some (Inr ((PhysicsEngine 1 (- 100))\<lparr>x1 := 250, x2 := 150, v1 := 0, v2 := - 100, collisions := 1\<rparr>))"
    by (simp add: step_loop_iter[OF _ example_first_pass] step_loop_iter[OF _ example_second_pass]
          step_loop_exit)
  then show ?thesis by (simp add: step_def check_finished_def PhysicsEngine_def)
qed

text \<open>
  In exact arithmetic, from a state with \<open>x2 \<ge> 0\<close> and \<open>x1 \<ge> x2 + w2\<close> every call of
  \<^verbatim>\<open>step\<close> that returns leaves a state in which both inequalities hold again, and
  with a positive large mass and the small mass 1 the call does return.
\<close>

lemma exact_no_tunneling:
  assumes "0 \<le> x2 s" and "x2 s + w2 s \<le> x1 s"
  shows "(\<forall>s'. step s dt = Some (Inr s') \<longrightarrow> 0 \<le> x2 s' \<and> x2 s' + w2 s' \<le> x1 s')
         \<and> (0 < m1 s \<and> m2 s = 1 \<longrightarrow> (\<exists>s'. step s dt = Some (Inr s')))"
proof
  show "\<forall>s'. step s dt = Some (Inr s') \<longrightarrow> 0 \<le> x2 s' \<and> x2 s' + w2 s' \<le> x1 s'"
  proof (intro allI impI)
    fix s' assume "step s dt = Some (Inr s')"
    then obtain s1 where l: "step_loop s dt = Some (Inr s1)" and s': "s' = check_finished s1"
      by (auto simp: step_Inr_iff)
    from step_loop_positions[OF l assms] show "0 \<le> x2 s' \<and> x2 s' + w2 s' \<le> x1 s'"
      by (simp add: s' check_finished_fields)
  qed
  show "0 < m1 s \<and> m2 s = 1 \<longrightarrow> (\<exists>s'. step s dt = Some (Inr s'))"
    using step_terminates[of s dt] by simp
qed

lemma exact_no_tunneling_example:
  "0 \<le> x2 (PhysicsEngine 1 (- 100))
   \<and> x2 (PhysicsEngine 1 (- 100)) + w2 (PhysicsEngine 1 (- 100)) \<le> x1 (PhysicsEngine 1 (- 100))
   \<and> step (PhysicsEngine 1 (- 100)) 2
       = Some (Inr ((PhysicsEngine 1 (- 100))\<lparr>x1 := 250, x2 := 150, v1 := 0, v2 := - 100, collisions := 1\<rparr>))
   \<and> (0 :: real) \<le> 150 \<and> (150 :: real) + 50 \<le> 250"
proof -
  have a: "0 \<le> x2 (PhysicsEngine 1 (- 100))"
    and b: "x2 (PhysicsEngine 1 (- 100)) + w2 (PhysicsEngine 1 (- 100)) \<le> x1 (PhysicsEngine 1 (- 100))"
    by (simp_all add: PhysicsEngine_def)
  from exact_no_tunneling[OF a b, of 2] example_step a b show ?thesis
    by (simp add: PhysicsEngine_def)
qed

subsection \<open>The loop ends\<close>

text \<open>
  In exact arithmetic, from a state with \<open>x2 \<ge> 0\<close>, \<open>x1 \<ge> x2 + w2\<close>, \<open>m1 > 0\<close> and the
  small mass 1, the call returns for every \<open>dt\<close>: it resolves at most \<open>rank s\<close>
  collisions, each in a pass of its own, and a pass from such a state leads to such
  a state. What ends the loop is that every collision lowers the rank.
\<close>

lemma exact_step_returns:
  assumes "0 \<le> x2 s" and "x2 s + w2 s \<le> x1 s" and "0 < m1 s" and "m2 s = 1"
  shows "(\<exists>s'. step s dt = Some (Inr s') \<and> collisions s' \<le> collisions s + int (rank s))
         \<and> (\<forall>tw tb t. t_wall s = Inr tw \<longrightarrow> t_block s = Inr tb \<longrightarrow> emin tw tb = Fin t \<longrightarrow> 0 \<le> t)
         \<and> (\<forall>r s1 r1. 0 < r \<longrightarrow> loop_body s r = Inr (s1, r1) \<longrightarrow>
               0 \<le> x2 s1 \<and> x2 s1 + w2 s1 \<le> x1 s1 \<and> m1 s1 = m1 s \<and> m2 s1 = m2 s
               \<and> 0 \<le> r1 \<and> r1 \<le> r)"
proof (intro conjI)
  have m: "0 < m2 s" using assms(4) by simp
  from step_loop_bounded[OF assms(3) m, of dt]
  show "\<exists>s'. step s dt = Some (Inr s') \<and> collisions s' \<le> collisions s + int (rank s)"
    by (auto simp: step_Inr_iff check_finished_fields)
  show "\<forall>tw tb t. t_wall s = Inr tw \<longrightarrow> t_block s = Inr tb \<longrightarrow> emin tw tb = Fin t \<longrightarrow> 0 \<le> t"
    using event_time_nonneg[OF assms(1,2)] by blast
  show "\<forall>r s1 r1. 0 < r \<longrightarrow> loop_body s r = Inr (s1, r1) \<longrightarrow>
          0 \<le> x2 s1 \<and> x2 s1 + w2 s1 \<le> x1 s1 \<and> m1 s1 = m1 s \<and> m2 s1 = m2 s \<and> 0 \<le> r1 \<and> r1 \<le> r"
  proof (intro allI impI)
    fix r s1 r1 assume r: "0 < r" and b: "loop_body s r = Inr (s1, r1)"
    from loop_body_positions[OF b r assms(1,2)] loop_body_frame(1,2)[OF b]
      loop_body_remaining[OF b r assms(1,2)]
    show "0 \<le> x2 s1 \<and> x2 s1 + w2 s1 \<le> x1 s1 \<and> m1 s1 = m1 s \<and> m2 s1 = m2 s \<and> 0 \<le> r1 \<and> r1 \<le> r"
      by simp
  qed
qed

lemma exact_step_returns_example:
  "0 \<le> x2 ((PhysicsEngine 1 (- 1))\<lparr>x1 := 250\<rparr>)
   \<and> x2 ((PhysicsEngine 1 (- 1))\<lparr>x1 := 250\<rparr>) + w2 ((PhysicsEngine 1 (- 1))\<lparr>x1 := 250\<rparr>)
       \<le> x1 ((PhysicsEngine 1 (- 1))\<lparr>x1 := 250\<rparr>)
   \<and> 0 < m1 ((PhysicsEngine 1 (- 1))\<lparr>x1 := 250\<rparr>)
   \<and> m2 ((PhysicsEngine 1 (- 1))\<lparr>x1 := 250\<rparr>) = 1
   \<and> (\<exists>s'. step ((PhysicsEngine 1 (- 1))\<lparr>x1 := 250\<rparr>) 1 = Some (Inr s'))
   \<and> t_wall ((PhysicsEngine 1 (- 1))\<lparr>x1 := 250\<rparr>) = Inr PosInf
   \<and> t_block ((PhysicsEngine 1 (- 1))\<lparr>x1 := 250\<rparr>) = Inr (Fin 0)
   \<and> emin PosInf (Fin 0) = Fin 0 \<and> (0 :: real) \<le> 0"
proof -
  let ?s = "(PhysicsEngine 1 (- 1))\<lparr>x1 := 250\<rparr>"
  have a: "0 \<le> x2 ?s" and b: "x2 ?s + w2 ?s \<le> x1 ?s" and c: "0 < m1 ?s" and d: "m2 ?s = 1"
    by (simp_all add: PhysicsEngine_def)
  have e: "t_wall ?s = Inr PosInf" by (simp add: t_wall_def PhysicsEngine_def)
  have f: "t_block ?s = Inr (Fin 0)" by (simp add: t_block_def PhysicsEngine_def Let_def)
  from exact_step_returns[OF a b c d, of 1] have "\<exists>s'. step ?s 1 = Some (Inr s')" by blast
  with a b c d e f show ?thesis by simp
qed

end
